theory Spec2Isabelle
  imports Complex_Main "HOL-Library.Sublist" "HOL-Library.Multiset"
begin

section \<open>Strings\<close>

text \<open>
  JavaScript strings are modelled as \<^typ>\<open>string\<close>: a character is a code unit below
  256. The three string operations the services use are written out on these:
  \<open>toLowerCase\<close> (the letters A to Z, and U+00C0 to U+00DE but for the multiplication
  sign U+00D7, each 32 below its lower-case letter), \<open>trim\<close> (tab, line feed, vertical
  tab, form feed, carriage return, space and no-break space) and \<open>includes\<close> (named
  \<open>includes_str\<close>).
\<close>

definition lowerChar :: "char \<Rightarrow> char" where
  "lowerChar c =
     (let n = (of_char c :: nat)
      in if (65 \<le> n \<and> n \<le> 90) \<or> (192 \<le> n \<and> n \<le> 222 \<and> n \<noteq> 215)
         then char_of (n + 32) else c)"

definition toLowerCase :: "string \<Rightarrow> string" where
  "toLowerCase s = map lowerChar s"

definition isWhiteSpace :: "char \<Rightarrow> bool" where
  "isWhiteSpace c =
     (let n = (of_char c :: nat)
      in n = 9 \<or> n = 10 \<or> n = 11 \<or> n = 12 \<or> n = 13 \<or> n = 32 \<or> n = 160)"

definition trim :: "string \<Rightarrow> string" where
  "trim s = rev (dropWhile isWhiteSpace (rev (dropWhile isWhiteSpace s)))"

text \<open>\<open>s.includes(t)\<close>: \<open>t\<close> occurs in \<open>s\<close> as a contiguous run of characters.\<close>

fun includes_str :: "string \<Rightarrow> string \<Rightarrow> bool" where
  "includes_str [] t = (t = [])"
| "includes_str (c # s) t = (prefix t (c # s) \<or> includes_str s t)"

section \<open>Audit log entries (src/types/auditLog.ts)\<close>

datatype AuditActionType =
  loan_created | status_changed_manual | status_changed_auto | loan_deleted

text \<open>The string each member of the union type is at run time.\<close>

fun actionTypeString :: "AuditActionType \<Rightarrow> string" where
  "actionTypeString loan_created = ''loan_created''"
| "actionTypeString status_changed_manual = ''status_changed_manual''"
| "actionTypeString status_changed_auto = ''status_changed_auto''"
| "actionTypeString loan_deleted = ''loan_deleted''"

text \<open>
  An optional field (\<open>previousStatus?\<close>) is an \<open>option\<close>: \<open>None\<close> is the absent
  (undefined) field. The field \<open>id\<close> is named \<open>entryId\<close> here.
\<close>

record AuditLogEntry =
  entryId :: string
  timestamp :: string
  actionType :: AuditActionType
  loanId :: string
  applicantName :: string
  previousStatus :: "string option"
  newStatus :: "string option"
  loanAmount :: real
  decisionMethod :: "string option"

record CreateLoanLogInput =
  loanId_c :: string
  applicantName_c :: string
  loanAmount_c :: real

record StatusChangeLogInput =
  loanId_s :: string
  applicantName_s :: string
  loanAmount_s :: real
  previousStatus_s :: string
  newStatus_s :: string
  isAuto :: bool

record DeleteLoanLogInput =
  loanId_d :: string
  applicantName_d :: string
  loanAmount_d :: real
  status_d :: string

section \<open>Entry constructors (src/services/auditLogService.ts)\<close>

text \<open>
  \<open>generateId()\<close> and \<open>new Date().toISOString()\<close> read the clock and the random
  generator; their results are the parameters \<open>newId\<close> and \<open>now\<close>.
\<close>

definition createLoanCreatedLog :: "string \<Rightarrow> string \<Rightarrow> CreateLoanLogInput \<Rightarrow> AuditLogEntry" where
  "createLoanCreatedLog newId now input =
     \<lparr> entryId = newId,
       timestamp = now,
       actionType = loan_created,
       loanId = loanId_c input,
       applicantName = applicantName_c input,
       previousStatus = None,
       newStatus = None,
       loanAmount = loanAmount_c input,
       decisionMethod = None \<rparr>"

definition createStatusChangeLog :: "string \<Rightarrow> string \<Rightarrow> StatusChangeLogInput \<Rightarrow> AuditLogEntry" where
  "createStatusChangeLog newId now input =
     \<lparr> entryId = newId,
       timestamp = now,
       actionType = (if isAuto input then status_changed_auto else status_changed_manual),
       loanId = loanId_s input,
       applicantName = applicantName_s input,
       previousStatus = Some (previousStatus_s input),
       newStatus = Some (newStatus_s input),
       loanAmount = loanAmount_s input,
       decisionMethod = Some (if isAuto input then ''auto'' else ''manual'') \<rparr>"

definition createLoanDeletedLog :: "string \<Rightarrow> string \<Rightarrow> DeleteLoanLogInput \<Rightarrow> AuditLogEntry" where
  "createLoanDeletedLog newId now input =
     \<lparr> entryId = newId,
       timestamp = now,
       actionType = loan_deleted,
       loanId = loanId_d input,
       applicantName = applicantName_d input,
       previousStatus = Some (status_d input),
       newStatus = None,
       loanAmount = loanAmount_d input,
       decisionMethod = None \<rparr>"

section \<open>Queries over the log (src/services/auditLogService.ts)\<close>

text \<open>
  \<open>filterLogsByActionType\<close>: the guard \<open>!actionType\<close> holds of the empty string. The
  argument is named \<open>wanted\<close>, since \<open>actionType\<close> is the field.
\<close>

definition filterLogsByActionType :: "AuditLogEntry list \<Rightarrow> string \<Rightarrow> AuditLogEntry list" where
  "filterLogsByActionType logs wanted =
     (if wanted = [] \<or> wanted = ''all'' then logs
      else filter (\<lambda>log. actionTypeString (actionType log) = wanted) logs)"

definition searchLogs :: "AuditLogEntry list \<Rightarrow> string \<Rightarrow> AuditLogEntry list" where
  "searchLogs logs searchTerm =
     (if searchTerm = [] \<or> trim searchTerm = [] then logs
      else let term = trim (toLowerCase searchTerm)
           in filter (\<lambda>log. includes_str (toLowerCase (applicantName log)) term
                          \<or> includes_str (toLowerCase (loanId log)) term) logs)"

text \<open>
  \<open>Array.prototype.sort\<close> with a comparison function is a stable sort: an element goes
  in front of the first element it does not compare greater than, so that elements that
  compare equal keep the order they came in.
\<close>

fun insertWith :: "('a \<Rightarrow> 'a \<Rightarrow> int) \<Rightarrow> 'a \<Rightarrow> 'a list \<Rightarrow> 'a list" where
  "insertWith cmp x [] = [x]"
| "insertWith cmp x (y # ys) =
     (if cmp x y \<le> 0 then x # y # ys else y # insertWith cmp x ys)"

fun sortWith :: "('a \<Rightarrow> 'a \<Rightarrow> int) \<Rightarrow> 'a list \<Rightarrow> 'a list" where
  "sortWith cmp [] = []"
| "sortWith cmp (x # xs) = insertWith cmp x (sortWith cmp xs)"

text \<open>
  \<open>new Date(s).getTime()\<close> is the parameter \<open>parseDate\<close>: the milliseconds since the
  epoch, or \<open>None\<close> for a string that is no date (the number NaN). The comparison
  function of \<open>sortLogsByTimestamp\<close> subtracts the two times; a NaN result is read as 0
  by \<open>sort\<close>. With a NaN among the times the comparison is no consistent order (the
  entry that is no date compares equal to every other entry); ECMAScript then leaves the
  order of the result to the engine, and the insertion above fixes one.
\<close>

definition compareTimestamps ::
  "(string \<Rightarrow> int option) \<Rightarrow> AuditLogEntry \<Rightarrow> AuditLogEntry \<Rightarrow> int" where
  "compareTimestamps parseDate a b =
     (case (parseDate (timestamp b), parseDate (timestamp a)) of
        (Some tb, Some ta) \<Rightarrow> tb - ta
      | _ \<Rightarrow> 0)"

definition sortLogsByTimestamp ::
  "(string \<Rightarrow> int option) \<Rightarrow> AuditLogEntry list \<Rightarrow> AuditLogEntry list" where
  "sortLogsByTimestamp parseDate logs = sortWith (compareTimestamps parseDate) logs"

definition processAuditLogs ::
  "(string \<Rightarrow> int option) \<Rightarrow> AuditLogEntry list \<Rightarrow> string \<Rightarrow> string \<Rightarrow> AuditLogEntry list" where
  "processAuditLogs parseDate logs wanted searchTerm =
     (let processed = logs;
          processed = filterLogsByActionType processed wanted;
          processed = searchLogs processed searchTerm;
          processed = sortLogsByTimestamp parseDate processed
      in processed)"

text \<open>The time of an entry whose timestamp is a date.\<close>

definition timeOf :: "(string \<Rightarrow> int option) \<Rightarrow> AuditLogEntry \<Rightarrow> int" where
  "timeOf parseDate entry = the (parseDate (timestamp entry))"

section \<open>Sample data\<close>

text \<open>
  The entries of the \<open>processAuditLogs\<close> tests (tests/auditLogService.test.ts), with a
  fourth entry that shares its timestamp with the second, and the times of the three
  dates they use.
\<close>

definition sampleLogs :: "AuditLogEntry list" where
  "sampleLogs =
     [ \<lparr> entryId = ''1'', timestamp = ''2024-01-01T00:00:00.000Z'', actionType = loan_created,
         loanId = ''loan-1'', applicantName = ''Alice Smith'', previousStatus = None,
         newStatus = None, loanAmount = 10000, decisionMethod = None \<rparr>,
       \<lparr> entryId = ''2'', timestamp = ''2024-01-03T00:00:00.000Z'',
         actionType = status_changed_manual,
         loanId = ''loan-1'', applicantName = ''Alice Smith'', previousStatus = Some ''pending'',
         newStatus = Some ''approved'', loanAmount = 10000, decisionMethod = Some ''manual'' \<rparr>,
       \<lparr> entryId = ''3'', timestamp = ''2024-01-02T00:00:00.000Z'', actionType = loan_created,
         loanId = ''loan-2'', applicantName = ''Bob Jones'', previousStatus = None,
         newStatus = None, loanAmount = 20000, decisionMethod = None \<rparr>,
       \<lparr> entryId = ''4'', timestamp = ''2024-01-03T00:00:00.000Z'', actionType = loan_deleted,
         loanId = ''loan-2'', applicantName = ''Bob Jones'', previousStatus = Some ''pending'',
         newStatus = None, loanAmount = 20000, decisionMethod = None \<rparr> ]"

definition sampleParseDate :: "string \<Rightarrow> int option" where
  "sampleParseDate s =
     (if s = ''2024-01-01T00:00:00.000Z'' then Some 1704067200000
      else if s = ''2024-01-02T00:00:00.000Z'' then Some 1704153600000
      else if s = ''2024-01-03T00:00:00.000Z'' then Some 1704240000000
      else None)"

text \<open>
  Four entries in the order of their ids, the third with a timestamp that is no date: such
  an entry comes from a stored log that is valid JSON, which \<open>getAuditLogs\<close> returns as
  it is.
\<close>

definition corruptLogs :: "AuditLogEntry list" where
  "corruptLogs =
     [ \<lparr> entryId = ''1'', timestamp = ''2024-01-02T00:00:00.000Z'', actionType = loan_created,
         loanId = ''loan-1'', applicantName = ''Alice Smith'', previousStatus = None,
         newStatus = None, loanAmount = 10000, decisionMethod = None \<rparr>,
       \<lparr> entryId = ''2'', timestamp = ''2024-01-01T00:00:00.000Z'', actionType = loan_created,
         loanId = ''loan-2'', applicantName = ''Bob Jones'', previousStatus = None,
         newStatus = None, loanAmount = 20000, decisionMethod = None \<rparr>,
       \<lparr> entryId = ''3'', timestamp = ''not-a-date'', actionType = loan_created,
         loanId = ''loan-3'', applicantName = ''Carol White'', previousStatus = None,
         newStatus = None, loanAmount = 30000, decisionMethod = None \<rparr>,
       \<lparr> entryId = ''4'', timestamp = ''2024-01-03T00:00:00.000Z'', actionType = loan_created,
         loanId = ''loan-4'', applicantName = ''Dan Brown'', previousStatus = None,
         newStatus = None, loanAmount = 40000, decisionMethod = None \<rparr> ]"

section \<open>Arrays as references\<close>

text \<open>
  An array of JavaScript is a reference to a mutable object: two variables may hold the
  same array, and \<open>sort\<close> reorders the array it is called on. To say what a query does
  to the array it is given, arrays live in a store: \<open>arrays h r\<close> is the content of the
  array at reference \<open>r\<close>, and \<open>nextRef h\<close> is the next unused reference.
\<close>

type_synonym ref = nat

record heap =
  arrays :: "ref \<Rightarrow> AuditLogEntry list option"
  nextRef :: ref

definition readArray :: "heap \<Rightarrow> ref \<Rightarrow> AuditLogEntry list" where
  "readArray h r = (case arrays h r of Some xs \<Rightarrow> xs | None \<Rightarrow> [])"

text \<open>A new array (an array literal, the result of \<open>filter\<close>, a spread copy).\<close>

definition newArray :: "heap \<Rightarrow> AuditLogEntry list \<Rightarrow> ref \<times> heap" where
  "newArray h xs =
     (nextRef h, h\<lparr> arrays := (arrays h)(nextRef h \<mapsto> xs), nextRef := Suc (nextRef h) \<rparr>)"

text \<open>\<open>r.sort(cmp)\<close> sorts the array at \<open>r\<close> in place and returns \<open>r\<close>.\<close>

definition sortInPlace ::
  "(AuditLogEntry \<Rightarrow> AuditLogEntry \<Rightarrow> int) \<Rightarrow> heap \<Rightarrow> ref \<Rightarrow> ref \<times> heap" where
  "sortInPlace cmp h r = (r, h\<lparr> arrays := (arrays h)(r \<mapsto> sortWith cmp (readArray h r)) \<rparr>)"

text \<open>
  The four query functions once more, on references: which array each returns, and what
  each does to the store. \<open>filterLogsByActionType\<close> and \<open>searchLogs\<close> return the array
  they were given when their guard holds, and the new array \<open>filter\<close> builds otherwise;
  \<open>sortLogsByTimestamp\<close> copies its argument (\<open>[...logs]\<close>) and sorts the copy.
\<close>

definition filterLogsByActionType_ref :: "heap \<Rightarrow> ref \<Rightarrow> string \<Rightarrow> ref \<times> heap" where
  "filterLogsByActionType_ref h logs wanted =
     (if wanted = [] \<or> wanted = ''all'' then (logs, h)
      else newArray h
             (filter (\<lambda>log. actionTypeString (actionType log) = wanted) (readArray h logs)))"

definition searchLogs_ref :: "heap \<Rightarrow> ref \<Rightarrow> string \<Rightarrow> ref \<times> heap" where
  "searchLogs_ref h logs searchTerm =
     (if searchTerm = [] \<or> trim searchTerm = [] then (logs, h)
      else let term = trim (toLowerCase searchTerm)
           in newArray h
                (filter (\<lambda>log. includes_str (toLowerCase (applicantName log)) term
                               \<or> includes_str (toLowerCase (loanId log)) term)
                   (readArray h logs)))"

definition sortLogsByTimestamp_ref ::
  "(string \<Rightarrow> int option) \<Rightarrow> heap \<Rightarrow> ref \<Rightarrow> ref \<times> heap" where
  "sortLogsByTimestamp_ref parseDate h logs =
     (let (copy, h1) = newArray h (readArray h logs)
      in sortInPlace (compareTimestamps parseDate) h1 copy)"

definition processAuditLogs_ref ::
  "(string \<Rightarrow> int option) \<Rightarrow> heap \<Rightarrow> ref \<Rightarrow> string \<Rightarrow> string \<Rightarrow> ref \<times> heap" where
  "processAuditLogs_ref parseDate h logs wanted searchTerm =
     (let processed = logs;
          (processed, h1) = filterLogsByActionType_ref h processed wanted;
          (processed, h2) = searchLogs_ref h1 processed searchTerm;
          (processed, h3) = sortLogsByTimestamp_ref parseDate h2 processed
      in (processed, h3))"

text \<open>A store that holds the sample entries in one array.\<close>

definition sampleHeap :: heap where
  "sampleHeap = \<lparr> arrays = [0 \<mapsto> sampleLogs], nextRef = 1 \<rparr>"

section \<open>The persisted log (src/services/auditLogService.ts)\<close>

text \<open>
  \<open>localStorage\<close> is a map from keys to strings. \<open>JSON.parse\<close> and \<open>JSON.stringify\<close>
  are parameters: \<open>parse s\<close> is \<open>Inl SyntaxError\<close> where \<open>JSON.parse\<close> throws. The cast
  \<open>as AuditLogEntry[]\<close> checks nothing, so a parsed value is either an array of entries
  or some other JSON value.
\<close>

datatype jsError = SyntaxError | TypeError

datatype parsed = Entries "AuditLogEntry list" | NotEntries

type_synonym storage = "string \<Rightarrow> string option"

definition STORAGE_KEY :: string where
  "STORAGE_KEY = ''tredgate_audit_logs''"

text \<open>The body of the \<open>try\<close> block: \<open>!stored\<close> holds of a missing key and of the empty string.\<close>

definition getAuditLogs_try :: "(string \<Rightarrow> jsError + parsed) \<Rightarrow> storage \<Rightarrow> jsError + parsed" where
  "getAuditLogs_try parse st =
     (case st STORAGE_KEY of
        None \<Rightarrow> Inr (Entries [])
      | Some stored \<Rightarrow> if stored = [] then Inr (Entries []) else parse stored)"

text \<open>\<open>getAuditLogs\<close>: the \<open>catch\<close> clause turns every error of the body into \<open>[]\<close>.\<close>

definition getAuditLogs :: "(string \<Rightarrow> jsError + parsed) \<Rightarrow> storage \<Rightarrow> jsError + parsed" where
  "getAuditLogs parse st =
     (case getAuditLogs_try parse st of
        Inl e \<Rightarrow> Inr (Entries [])
      | Inr v \<Rightarrow> Inr v)"

definition saveAuditLogs :: "(AuditLogEntry list \<Rightarrow> string) \<Rightarrow> storage \<Rightarrow> AuditLogEntry list \<Rightarrow> storage" where
  "saveAuditLogs stringify st logs = st(STORAGE_KEY \<mapsto> stringify logs)"

text \<open>\<open>addAuditLog\<close>: \<open>logs.push(entry)\<close> throws a TypeError on a value that is no array.\<close>

definition addAuditLog ::
  "(string \<Rightarrow> jsError + parsed) \<Rightarrow> (AuditLogEntry list \<Rightarrow> string) \<Rightarrow> storage \<Rightarrow> AuditLogEntry
     \<Rightarrow> jsError + storage" where
  "addAuditLog parse stringify st entry =
     (case getAuditLogs parse st of
        Inl e \<Rightarrow> Inl e
      | Inr NotEntries \<Rightarrow> Inl TypeError
      | Inr (Entries logs) \<Rightarrow> Inr (saveAuditLogs stringify st (logs @ [entry])))"

text \<open>
  A parser and a printer that know two arrays, for examples: the empty one and the one
  that holds the first sample entry.
\<close>

definition sampleParse :: "string \<Rightarrow> jsError + parsed" where
  "sampleParse s =
     (if s = ''[]'' then Inr (Entries [])
      else if s = ''[1]'' then Inr (Entries [hd sampleLogs])
      else Inl SyntaxError)"

definition sampleStringify :: "AuditLogEntry list \<Rightarrow> string" where
  "sampleStringify logs = (if logs = [] then ''[]'' else ''[1]'')"

section \<open>Loans\<close>

text \<open>
  A loan application, with the fields of the objects the tests build
  (tests/LoanList.test.ts, \<open>mockLoans\<close>). Amounts and rates are real numbers, the term is a
  whole number of months. The fields \<open>id\<close> and \<open>applicantName\<close> are named \<open>id_l\<close> and
  \<open>applicantName_l\<close> here.
\<close>

datatype LoanStatus = pending | approved | rejected

record LoanApplication =
  id_l :: string
  applicantName_l :: string
  amount :: real
  termMonths :: int
  interestRate :: real
  status :: LoanStatus
  createdAt :: string

subsection \<open>The loan service\<close>

text \<open>
  Modelled from the spec: the operations of src/services/loanService.ts
  (\<open>createLoanApplication\<close>, \<open>updateLoanStatus\<close>, \<open>autoDecideLoan\<close>, \<open>deleteLoan\<close>),
  which is not among the sources; App.vue and the tests name them. The persisted
  collection is the list of loans they take and return; a failure leaves it as it was.
\<close>

datatype loanError = ValidationError string | NotFoundError

record LoanInput =
  applicantName_i :: string
  amount_i :: real
  termMonths_i :: int
  interestRate_i :: real

text \<open>
  Modelled from the spec: \<open>create\<close> checks the name, then the amount, then the term, then
  the rate, and fails with the message of the first check that fails; on success the new
  record has a fresh id (\<open>newId\<close>), status \<open>pending\<close> and the current time (\<open>now\<close>), and
  is appended to the collection.
\<close>

definition createLoanApplication ::
  "string \<Rightarrow> string \<Rightarrow> LoanApplication list \<Rightarrow> LoanInput
     \<Rightarrow> loanError + (LoanApplication \<times> LoanApplication list)" where
  "createLoanApplication newId now loans input =
     (if trim (applicantName_i input) = [] then
        Inl (ValidationError ''Applicant name is required'')
      else if \<not> amount_i input > 0 then
        Inl (ValidationError ''Amount must be greater than 0'')
      else if \<not> termMonths_i input > 0 then
        Inl (ValidationError ''Term months must be greater than 0'')
      else if \<not> interestRate_i input \<ge> 0 then
        Inl (ValidationError ''Interest rate is required and cannot be negative'')
      else
        let loan = \<lparr> id_l = newId, applicantName_l = applicantName_i input,
                      amount = amount_i input, termMonths = termMonths_i input,
                      interestRate = interestRate_i input, status = pending,
                      createdAt = now \<rparr>
        in Inr (loan, loans @ [loan]))"

text \<open>The record with the given id gets the new status, in place.\<close>

fun setStatus :: "string \<Rightarrow> LoanStatus \<Rightarrow> LoanApplication list \<Rightarrow> LoanApplication list" where
  "setStatus i s [] = []"
| "setStatus i s (loan # loans) =
     (if id_l loan = i then loan\<lparr> status := s \<rparr> # loans else loan # setStatus i s loans)"

text \<open>
  Modelled from the spec: \<open>updateStatus\<close> fails with \<open>NotFoundError\<close> if no record has
  the id, and else sets the status; it has no guard on the status the record is in
  (the spec: the reference behaviour does not guard against a second transition).
\<close>

definition updateLoanStatus ::
  "string \<Rightarrow> LoanStatus \<Rightarrow> LoanApplication list \<Rightarrow> loanError + LoanApplication list" where
  "updateLoanStatus i newStatus' loans =
     (case find (\<lambda>loan. id_l loan = i) loans of
        None \<Rightarrow> Inl NotFoundError
      | Some loan \<Rightarrow> Inr (setStatus i newStatus' loans))"

text \<open>
  Modelled from the spec: \<open>autoDecide\<close> fails with \<open>NotFoundError\<close> if the record is
  absent; the new status is \<open>approved\<close> if \<open>amount <= 100000\<close> and \<open>termMonths <= 60\<close>,
  else \<open>rejected\<close>; it persists as \<open>updateStatus\<close> does and returns the old and the new
  status.
\<close>

definition autoDecideLoan ::
  "string \<Rightarrow> LoanApplication list
     \<Rightarrow> loanError + ((LoanStatus \<times> LoanStatus) \<times> LoanApplication list)" where
  "autoDecideLoan i loans =
     (case find (\<lambda>loan. id_l loan = i) loans of
        None \<Rightarrow> Inl NotFoundError
      | Some loan \<Rightarrow>
          let newStatus' = (if amount loan \<le> 100000 \<and> termMonths loan \<le> 60
                            then approved else rejected)
          in Inr ((status loan, newStatus'), setStatus i newStatus' loans))"

text \<open>
  Modelled from the spec: \<open>delete\<close> fails with \<open>NotFoundError\<close> if the record is absent,
  and else removes it from the collection and returns it.
\<close>

definition deleteLoan ::
  "string \<Rightarrow> LoanApplication list \<Rightarrow> loanError + (LoanApplication \<times> LoanApplication list)" where
  "deleteLoan i loans =
     (case find (\<lambda>loan. id_l loan = i) loans of
        None \<Rightarrow> Inl NotFoundError
      | Some loan \<Rightarrow> Inr (loan, filter (\<lambda>l. id_l l \<noteq> i) loans))"

text \<open>A loan of the given amount and term, pending, for examples.\<close>

definition loanOf :: "real \<Rightarrow> int \<Rightarrow> LoanApplication" where
  "loanOf a n =
     \<lparr> id_l = ''1'', applicantName_l = ''John Doe'', amount = a, termMonths = n,
       interestRate = 8 / 100, status = pending, createdAt = ''2024-01-01T00:00:00.000Z'' \<rparr>"

text \<open>An input with a blank name and the amount 0.\<close>

definition sampleInput :: LoanInput where
  "sampleInput = \<lparr> applicantName_i = ''   '', amount_i = 0, termMonths_i = 36,
                    interestRate_i = 8 / 100 \<rparr>"

section \<open>The application (src/App.vue and the list component)\<close>

text \<open>
  The state of the application: the loans persisted under \<open>tredgate_loans\<close>, and the
  \<open>loans\<close> ref of App.vue, which is the \<open>loans\<close> prop the list renders.
\<close>

record app =
  storedLoans :: "LoanApplication list"
  shownLoans :: "LoanApplication list"

text \<open>
  \<open>refreshLoans\<close> of App.vue: \<open>loans.value = getLoans()\<close>, where \<open>getLoans\<close> of the
  loan service reads the persisted collection.
\<close>

definition refreshLoans :: "app \<Rightarrow> app" where
  "refreshLoans s = s\<lparr> shownLoans := storedLoans s \<rparr>"

text \<open>
  The handlers of App.vue call the loan service and then \<open>refreshLoans\<close>; an error of
  the service leaves the handler before the refresh.
\<close>

definition handleApprove :: "app \<Rightarrow> string \<Rightarrow> loanError + app" where
  "handleApprove s i =
     (case updateLoanStatus i approved (storedLoans s) of
        Inl e \<Rightarrow> Inl e
      | Inr stored \<Rightarrow> Inr (refreshLoans (s\<lparr> storedLoans := stored \<rparr>)))"

definition handleReject :: "app \<Rightarrow> string \<Rightarrow> loanError + app" where
  "handleReject s i =
     (case updateLoanStatus i rejected (storedLoans s) of
        Inl e \<Rightarrow> Inl e
      | Inr stored \<Rightarrow> Inr (refreshLoans (s\<lparr> storedLoans := stored \<rparr>)))"

definition handleAutoDecide :: "app \<Rightarrow> string \<Rightarrow> loanError + app" where
  "handleAutoDecide s i =
     (case autoDecideLoan i (storedLoans s) of
        Inl e \<Rightarrow> Inl e
      | Inr (decision, stored) \<Rightarrow> Inr (refreshLoans (s\<lparr> storedLoans := stored \<rparr>)))"

definition handleDelete :: "app \<Rightarrow> string \<Rightarrow> loanError + app" where
  "handleDelete s i =
     (case deleteLoan i (storedLoans s) of
        Inl e \<Rightarrow> Inl e
      | Inr (removed, stored) \<Rightarrow> Inr (refreshLoans (s\<lparr> storedLoans := stored \<rparr>)))"

text \<open>
  Modelled from the spec: the form component (LoanForm.vue, not among the sources) calls
  \<open>createLoanApplication\<close> and, on success, emits \<open>created\<close>, which App.vue answers with
  \<open>refreshLoans\<close>.
\<close>

definition submitForm :: "app \<Rightarrow> string \<Rightarrow> string \<Rightarrow> LoanInput \<Rightarrow> loanError + app" where
  "submitForm s newId now input =
     (case createLoanApplication newId now (storedLoans s) input of
        Inl e \<Rightarrow> Inl e
      | Inr (loan, stored) \<Rightarrow> Inr (refreshLoans (s\<lparr> storedLoans := stored \<rparr>)))"

text \<open>
  What a user can do: mount or reload the page, submit the form, and click a button of a
  row of the list. The list offers the approve, reject and auto-decide buttons of a row
  only under \<open>v-if="loan.status === 'pending'"\<close>, and each emits the id of its row; the
  delete button is on every row. An id the form assigns is fresh: no persisted loan has it.
\<close>

datatype userAction =
    Mounted
  | PageReload
  | SubmitForm string string LoanInput
  | ClickApprove string
  | ClickReject string
  | ClickAutoDecide string
  | ConfirmDelete string

fun offered :: "app \<Rightarrow> userAction \<Rightarrow> bool" where
  "offered s Mounted = True"
| "offered s PageReload = True"
| "offered s (SubmitForm newId now input) = (newId \<notin> set (map id_l (storedLoans s)))"
| "offered s (ClickApprove i) =
     (\<exists>loan \<in> set (shownLoans s). id_l loan = i \<and> status loan = pending)"
| "offered s (ClickReject i) =
     (\<exists>loan \<in> set (shownLoans s). id_l loan = i \<and> status loan = pending)"
| "offered s (ClickAutoDecide i) =
     (\<exists>loan \<in> set (shownLoans s). id_l loan = i \<and> status loan = pending)"
| "offered s (ConfirmDelete i) = (\<exists>loan \<in> set (shownLoans s). id_l loan = i)"

fun handle :: "app \<Rightarrow> userAction \<Rightarrow> loanError + app" where
  "handle s Mounted = Inr (refreshLoans s)"
| "handle s PageReload = Inr (s\<lparr> shownLoans := [] \<rparr>)"
| "handle s (SubmitForm newId now input) = submitForm s newId now input"
| "handle s (ClickApprove i) = handleApprove s i"
| "handle s (ClickReject i) = handleReject s i"
| "handle s (ClickAutoDecide i) = handleAutoDecide s i"
| "handle s (ConfirmDelete i) = handleDelete s i"

text \<open>
  One step: an action that is offered runs its handler; where the handler ends in an
  error, nothing was persisted and the state is as before.
\<close>

definition step :: "app \<Rightarrow> userAction \<Rightarrow> app option" where
  "step s a =
     (if offered s a
      then Some (case handle s a of Inl e \<Rightarrow> s | Inr s' \<Rightarrow> s')
      else None)"

definition initialApp :: app where
  "initialApp = \<lparr> storedLoans = [], shownLoans = [] \<rparr>"

inductive reachable :: "app \<Rightarrow> bool" where
  reach_start: "reachable initialApp"
| reach_step: "reachable s \<Longrightarrow> step s a = Some s' \<Longrightarrow> reachable s'"

text \<open>The input of the end-to-end scenario, and the state after it is submitted.\<close>

definition johnDoe :: LoanInput where
  "johnDoe = \<lparr> applicantName_i = ''John Doe'', amount_i = 50000, termMonths_i = 36,
                interestRate_i = 8 / 100 \<rparr>"

definition johnDoeLoan :: LoanApplication where
  "johnDoeLoan =
     \<lparr> id_l = ''1'', applicantName_l = ''John Doe'', amount = 50000, termMonths = 36,
       interestRate = 8 / 100, status = pending, createdAt = ''2024-01-01T00:00:00.000Z'' \<rparr>"

definition oneLoanApp :: app where
  "oneLoanApp = \<lparr> storedLoans = [johnDoeLoan], shownLoans = [johnDoeLoan] \<rparr>"

text \<open>
  The invariant of the reachable states: the ids of the persisted loans are distinct, and
  the list shows the persisted loans or, before the page is mounted, nothing.
\<close>

definition consistent :: "app \<Rightarrow> bool" where
  "consistent s =
     (distinct (map id_l (storedLoans s))
      \<and> (shownLoans s = storedLoans s \<or> shownLoans s = []))"

text \<open>The state after John Doe's loan got the status \<open>st\<close>.\<close>

definition decidedApp :: "LoanStatus \<Rightarrow> app" where
  "decidedApp st =
     \<lparr> storedLoans = [johnDoeLoan\<lparr> status := st \<rparr>],
       shownLoans = [johnDoeLoan\<lparr> status := st \<rparr>] \<rparr>"

section \<open>Theorems\<close>

subsection \<open>Field presence of constructed entries\<close>

text \<open>
  Claim C5. Every entry the three constructors build has the fields its event calls for:
  a \<open>loan_created\<close> entry has no \<open>previousStatus\<close>, \<open>newStatus\<close> or \<open>decisionMethod\<close>;
  a status-change entry (manual or auto) has all three, taken from the input; a
  \<open>loan_deleted\<close> entry has \<open>previousStatus\<close> (the status at deletion) and neither of
  the other two.
\<close>

theorem constructors_field_presence:
  "actionType (createLoanCreatedLog newId now ci) = loan_created
   \<and> previousStatus (createLoanCreatedLog newId now ci) = None
   \<and> newStatus (createLoanCreatedLog newId now ci) = None
   \<and> decisionMethod (createLoanCreatedLog newId now ci) = None
   \<and> actionType (createStatusChangeLog newId now si)
       = (if isAuto si then status_changed_auto else status_changed_manual)
   \<and> previousStatus (createStatusChangeLog newId now si) = Some (previousStatus_s si)
   \<and> newStatus (createStatusChangeLog newId now si) = Some (newStatus_s si)
   \<and> decisionMethod (createStatusChangeLog newId now si)
       = Some (if isAuto si then ''auto'' else ''manual'')
   \<and> actionType (createLoanDeletedLog newId now di) = loan_deleted
   \<and> previousStatus (createLoanDeletedLog newId now di) = Some (status_d di)
   \<and> newStatus (createLoanDeletedLog newId now di) = None
   \<and> decisionMethod (createLoanDeletedLog newId now di) = None"
  by (simp add: createLoanCreatedLog_def createStatusChangeLog_def createLoanDeletedLog_def)

subsection \<open>The sort\<close>

lemma set_insertWith: "set (insertWith cmp x ys) = insert x (set ys)"
  by (induction ys) auto

lemma set_sortWith: "set (sortWith cmp xs) = set xs"
  by (induction xs) (auto simp: set_insertWith)



lemma insertWith_insort:
  assumes "\<forall>e \<in> set (x # ys). parseDate (timestamp e) \<noteq> None"
  shows "insertWith (compareTimestamps parseDate) x ys
       = insort_key (\<lambda>e. - timeOf parseDate e) x ys"
  using assms
  by (induction ys) (auto simp: compareTimestamps_def timeOf_def)

lemma sortWith_sort_key:
  assumes "\<forall>e \<in> set xs. parseDate (timestamp e) \<noteq> None"
  shows "sortWith (compareTimestamps parseDate) xs = sort_key (\<lambda>e. - timeOf parseDate e) xs"
  using assms
proof (induction xs)
  case Nil
  show ?case by simp
next
  case (Cons x xs)
  have valid: "\<forall>e \<in> set (x # sortWith (compareTimestamps parseDate) xs). parseDate (timestamp e) \<noteq> None"
    using Cons.prems by (simp add: set_sortWith)
  have "sortWith (compareTimestamps parseDate) (x # xs)
      = insort_key (\<lambda>e. - timeOf parseDate e) x (sortWith (compareTimestamps parseDate) xs)"
    using insertWith_insort [OF valid] by simp
  also have "\<dots> = insort_key (\<lambda>e. - timeOf parseDate e) x (sort_key (\<lambda>e. - timeOf parseDate e) xs)"
    using Cons by simp
  finally show ?case by (simp add: sort_key_def)
qed

subsection \<open>The query: order of the result\<close>



lemma staged_subseq: "subseq (searchLogs (filterLogsByActionType logs wanted) searchTerm) logs"
proof -
  have "subseq (filterLogsByActionType logs wanted) logs"
    by (simp add: filterLogsByActionType_def)
  moreover have "subseq (searchLogs xs searchTerm) xs" for xs
    by (simp add: searchLogs_def Let_def)
  ultimately show ?thesis
    by (rule subseq_order.order_trans [rotated])
qed

lemma processAuditLogs_unfold:
  "processAuditLogs parseDate logs wanted searchTerm
     = sortLogsByTimestamp parseDate (searchLogs (filterLogsByActionType logs wanted) searchTerm)"
  by (simp add: processAuditLogs_def)

text \<open>
  Claim C6, as stated, fails: on the four entries of \<open>corruptLogs\<close>, with no filter and
  no search text, \<open>processAuditLogs\<close> returns the entries in their input order, so the
  newest entry (id 4, 3 January) comes last, after two older ones; the entries of the
  result that have a date are not in descending order of time.
\<close>

theorem processAuditLogs_sorted_counterexample:
  "map entryId (processAuditLogs sampleParseDate corruptLogs ''all'' []) = [''1'', ''2'', ''3'', ''4'']
   \<and> map (\<lambda>e. sampleParseDate (timestamp e))
         (processAuditLogs sampleParseDate corruptLogs ''all'' [])
       = [Some 1704153600000, Some 1704067200000, None, Some 1704240000000]
   \<and> \<not> sorted_wrt (\<lambda>a b. timeOf sampleParseDate b \<le> timeOf sampleParseDate a)
         (filter (\<lambda>e. sampleParseDate (timestamp e) \<noteq> None)
            (processAuditLogs sampleParseDate corruptLogs ''all'' []))"
proof -
  have run: "processAuditLogs sampleParseDate corruptLogs ''all'' [] = corruptLogs"
    by (simp add: processAuditLogs_def filterLogsByActionType_def searchLogs_def
        sortLogsByTimestamp_def compareTimestamps_def corruptLogs_def sampleParseDate_def)
  show ?thesis
    unfolding run
    by (simp add: corruptLogs_def sampleParseDate_def timeOf_def)
qed

text \<open>
  Claim C6, amended. For every list of entries and every filter and search argument such
  that the timestamp of every entry that passes the filter and the search is a date, the
  result of \<open>processAuditLogs\<close> is in descending order of time (newest first), the
  entries of any one time stand in the result in the order they have in the filtered and
  searched list, and that list is a subsequence of the input: entries with equal
  timestamps keep their relative input order.
\<close>

theorem processAuditLogs_sorted_stable:
  assumes "\<forall>e \<in> set (searchLogs (filterLogsByActionType logs wanted) searchTerm).
             parseDate (timestamp e) \<noteq> None"
  shows "sorted_wrt (\<lambda>a b. timeOf parseDate b \<le> timeOf parseDate a)
           (processAuditLogs parseDate logs wanted searchTerm)
       \<and> (\<forall>t. filter (\<lambda>e. timeOf parseDate e = t) (processAuditLogs parseDate logs wanted searchTerm)
              = filter (\<lambda>e. timeOf parseDate e = t)
                  (searchLogs (filterLogsByActionType logs wanted) searchTerm))
       \<and> subseq (searchLogs (filterLogsByActionType logs wanted) searchTerm) logs"
proof -
  let ?staged = "searchLogs (filterLogsByActionType logs wanted) searchTerm"
  let ?key = "\<lambda>e. - timeOf parseDate e"
  have sub: "subseq ?staged logs" by (rule staged_subseq)
  have eq: "processAuditLogs parseDate logs wanted searchTerm = sort_key ?key ?staged"
    by (simp add: processAuditLogs_unfold sortLogsByTimestamp_def sortWith_sort_key [OF assms])
  have "sorted (map ?key (sort_key ?key ?staged))" by (rule sorted_sort_key)
  then have s: "sorted_wrt (\<lambda>a b. timeOf parseDate b \<le> timeOf parseDate a) (sort_key ?key ?staged)"
    by (simp add: sorted_map)
  have st: "filter (\<lambda>e. timeOf parseDate e = t) (sort_key ?key ?staged)
          = filter (\<lambda>e. timeOf parseDate e = t) ?staged" for t
    using sort_key_stable [of ?key "- t" ?staged] by simp
  show ?thesis using s st sub by (simp add: eq)
qed

text \<open>
  Two instances: the sample entries with no filter, where entries 2 and 4 share a time
  and keep their order; and \<open>corruptLogs\<close> with the search text \<open>bob\<close>, where the entry
  that is no date does not pass the search.
\<close>

theorem processAuditLogs_sorted_stable_witness:
  "map entryId (processAuditLogs sampleParseDate sampleLogs ''all'' []) = [''2'', ''4'', ''3'', ''1'']
   \<and> sorted_wrt (\<lambda>a b. timeOf sampleParseDate b \<le> timeOf sampleParseDate a)
           (processAuditLogs sampleParseDate sampleLogs ''all'' [])
   \<and> (\<forall>t. filter (\<lambda>e. timeOf sampleParseDate e = t) (processAuditLogs sampleParseDate sampleLogs ''all'' [])
              = filter (\<lambda>e. timeOf sampleParseDate e = t)
                  (searchLogs (filterLogsByActionType sampleLogs ''all'') []))
   \<and> map entryId (searchLogs (filterLogsByActionType corruptLogs ''all'') ''bob'') = [''2'']
   \<and> sorted_wrt (\<lambda>a b. timeOf sampleParseDate b \<le> timeOf sampleParseDate a)
           (processAuditLogs sampleParseDate corruptLogs ''all'' ''bob'')"
proof -
  have staged: "searchLogs (filterLogsByActionType sampleLogs ''all'') [] = sampleLogs"
    by (simp add: filterLogsByActionType_def searchLogs_def)
  have valid: "\<forall>e \<in> set (searchLogs (filterLogsByActionType sampleLogs ''all'') []).
                 sampleParseDate (timestamp e) \<noteq> None"
    unfolding staged by (simp add: sampleLogs_def sampleParseDate_def)
  have order: "map entryId (processAuditLogs sampleParseDate sampleLogs ''all'' []) = [''2'', ''4'', ''3'', ''1'']"
    by (simp add: processAuditLogs_def filterLogsByActionType_def searchLogs_def
        sortLogsByTimestamp_def compareTimestamps_def sampleLogs_def sampleParseDate_def)
  have bob: "searchLogs (filterLogsByActionType corruptLogs ''all'') ''bob'' = [corruptLogs ! 1]"
    by code_simp
  have valid_bob: "\<forall>e \<in> set (searchLogs (filterLogsByActionType corruptLogs ''all'') ''bob'').
                 sampleParseDate (timestamp e) \<noteq> None"
    unfolding bob by (simp add: corruptLogs_def sampleParseDate_def)
  have id_bob: "map entryId (searchLogs (filterLogsByActionType corruptLogs ''all'') ''bob'') = [''2'']"
    unfolding bob by (simp add: corruptLogs_def)
  show ?thesis
    using processAuditLogs_sorted_stable [OF valid] processAuditLogs_sorted_stable [OF valid_bob]
      order id_bob
    by simp
qed

subsection \<open>The query: filter and search\<close>








subsection \<open>The query and the array it is given\<close>

lemma newArray_frame:
  assumes "r < nextRef h"
  shows "arrays (snd (newArray h xs)) r = arrays h r"
    and "nextRef h \<le> nextRef (snd (newArray h xs))"
    and "fst (newArray h xs) = nextRef h"
    and "fst (newArray h xs) < nextRef (snd (newArray h xs))"
  using assms by (simp_all add: newArray_def)

lemma newArray_content: "readArray (snd (newArray h xs)) (fst (newArray h xs)) = xs"
  by (simp add: newArray_def readArray_def)

lemma filterLogsByActionType_ref_frame:
  assumes "r < nextRef h"
  shows "arrays (snd (filterLogsByActionType_ref h logs wanted)) r = arrays h r"
    and "nextRef h \<le> nextRef (snd (filterLogsByActionType_ref h logs wanted))"
  using assms by (simp_all add: filterLogsByActionType_ref_def newArray_def)

lemma searchLogs_ref_frame:
  assumes "r < nextRef h"
  shows "arrays (snd (searchLogs_ref h logs searchTerm)) r = arrays h r"
    and "nextRef h \<le> nextRef (snd (searchLogs_ref h logs searchTerm))"
  using assms by (simp_all add: searchLogs_ref_def newArray_def Let_def)

lemma sortLogsByTimestamp_ref_frame:
  assumes "r < nextRef h"
  shows "arrays (snd (sortLogsByTimestamp_ref parseDate h logs)) r = arrays h r"
    and "nextRef h \<le> nextRef (snd (sortLogsByTimestamp_ref parseDate h logs))"
    and "fst (sortLogsByTimestamp_ref parseDate h logs) = nextRef h"
  using assms by (simp_all add: sortLogsByTimestamp_ref_def newArray_def sortInPlace_def)

lemma processAuditLogs_ref_frame:
  assumes "r < nextRef h"
  shows "arrays (snd (processAuditLogs_ref parseDate h logs wanted searchTerm)) r = arrays h r"
proof -
  obtain p1 h1 where s1: "filterLogsByActionType_ref h logs wanted = (p1, h1)"
    by (cases "filterLogsByActionType_ref h logs wanted")
  obtain p2 h2 where s2: "searchLogs_ref h1 p1 searchTerm = (p2, h2)"
    by (cases "searchLogs_ref h1 p1 searchTerm")
  obtain p3 h3 where s3: "sortLogsByTimestamp_ref parseDate h2 p2 = (p3, h3)"
    by (cases "sortLogsByTimestamp_ref parseDate h2 p2")
  have r1: "arrays h1 r = arrays h r" "r < nextRef h1"
    using filterLogsByActionType_ref_frame [OF assms, of logs wanted] assms s1 by simp_all
  have r2: "arrays h2 r = arrays h1 r" "r < nextRef h2"
    using searchLogs_ref_frame [OF r1(2), of p1 searchTerm] r1(2) s2 by simp_all
  have r3: "arrays h3 r = arrays h2 r"
    using sortLogsByTimestamp_ref_frame(1) [OF r2(2), of parseDate p2] s3 by simp
  have "processAuditLogs_ref parseDate h logs wanted searchTerm = (p3, h3)"
    by (simp add: processAuditLogs_ref_def s1 s2 s3)
  then show ?thesis using r1 r2 r3 by simp
qed

text \<open>The functions on references return the arrays the functions on lists compute.\<close>

lemma filterLogsByActionType_ref_content:
  "readArray (snd (filterLogsByActionType_ref h logs wanted))
             (fst (filterLogsByActionType_ref h logs wanted))
     = filterLogsByActionType (readArray h logs) wanted"
  by (simp add: filterLogsByActionType_ref_def filterLogsByActionType_def newArray_content)

lemma searchLogs_ref_content:
  "readArray (snd (searchLogs_ref h logs searchTerm)) (fst (searchLogs_ref h logs searchTerm))
     = searchLogs (readArray h logs) searchTerm"
  by (simp add: searchLogs_ref_def searchLogs_def newArray_content Let_def)

lemma sortLogsByTimestamp_ref_content:
  "readArray (snd (sortLogsByTimestamp_ref parseDate h logs))
             (fst (sortLogsByTimestamp_ref parseDate h logs))
     = sortLogsByTimestamp parseDate (readArray h logs)"
  by (simp add: sortLogsByTimestamp_ref_def sortLogsByTimestamp_def newArray_def
      sortInPlace_def readArray_def)

lemma processAuditLogs_ref_content:
  "readArray (snd (processAuditLogs_ref parseDate h logs wanted searchTerm))
             (fst (processAuditLogs_ref parseDate h logs wanted searchTerm))
     = processAuditLogs parseDate (readArray h logs) wanted searchTerm"
proof -
  obtain p1 h1 where s1: "filterLogsByActionType_ref h logs wanted = (p1, h1)"
    by (cases "filterLogsByActionType_ref h logs wanted")
  obtain p2 h2 where s2: "searchLogs_ref h1 p1 searchTerm = (p2, h2)"
    by (cases "searchLogs_ref h1 p1 searchTerm")
  obtain p3 h3 where s3: "sortLogsByTimestamp_ref parseDate h2 p2 = (p3, h3)"
    by (cases "sortLogsByTimestamp_ref parseDate h2 p2")
  have c1: "readArray h1 p1 = filterLogsByActionType (readArray h logs) wanted"
    using filterLogsByActionType_ref_content [of h logs wanted] s1 by simp
  have c2: "readArray h2 p2 = searchLogs (readArray h1 p1) searchTerm"
    using searchLogs_ref_content [of h1 p1 searchTerm] s2 by simp
  have c3: "readArray h3 p3 = sortLogsByTimestamp parseDate (readArray h2 p2)"
    using sortLogsByTimestamp_ref_content [of parseDate h2 p2] s3 by simp
  have "processAuditLogs_ref parseDate h logs wanted searchTerm = (p3, h3)"
    by (simp add: processAuditLogs_ref_def s1 s2 s3)
  then show ?thesis by (simp add: c1 c2 c3 processAuditLogs_def)
qed

text \<open>
  Claim C10. The query stages never mutate their input: after \<open>filterLogsByActionType\<close>,
  \<open>searchLogs\<close>, \<open>sortLogsByTimestamp\<close> or \<open>processAuditLogs\<close> on an array of the
  store, that array holds the same entries in the same order as before the call, for every
  argument. \<open>sortLogsByTimestamp\<close>, and with it \<open>processAuditLogs\<close>, returns an array
  other than its input: it sorts a copy.
\<close>

theorem queries_leave_input_unchanged:
  assumes "logs < nextRef h"
  shows "readArray (snd (filterLogsByActionType_ref h logs wanted)) logs = readArray h logs
       \<and> readArray (snd (searchLogs_ref h logs searchTerm)) logs = readArray h logs
       \<and> readArray (snd (sortLogsByTimestamp_ref parseDate h logs)) logs = readArray h logs
       \<and> readArray (snd (processAuditLogs_ref parseDate h logs wanted searchTerm)) logs
           = readArray h logs
       \<and> fst (sortLogsByTimestamp_ref parseDate h logs) \<noteq> logs
       \<and> fst (processAuditLogs_ref parseDate h logs wanted searchTerm) \<noteq> logs"
proof -
  have a: "arrays (snd (filterLogsByActionType_ref h logs wanted)) logs = arrays h logs"
    by (rule filterLogsByActionType_ref_frame(1) [OF assms])
  have b: "arrays (snd (searchLogs_ref h logs searchTerm)) logs = arrays h logs"
    by (rule searchLogs_ref_frame(1) [OF assms])
  have c: "arrays (snd (sortLogsByTimestamp_ref parseDate h logs)) logs = arrays h logs"
    by (rule sortLogsByTimestamp_ref_frame(1) [OF assms])
  have d: "arrays (snd (processAuditLogs_ref parseDate h logs wanted searchTerm)) logs
         = arrays h logs"
    by (rule processAuditLogs_ref_frame [OF assms])
  have e: "fst (sortLogsByTimestamp_ref parseDate h logs) \<noteq> logs"
    using assms by (simp add: sortLogsByTimestamp_ref_frame(3))
  have f: "fst (processAuditLogs_ref parseDate h logs wanted searchTerm) \<noteq> logs"
  proof -
    obtain p1 h1 where s1: "filterLogsByActionType_ref h logs wanted = (p1, h1)"
      by (cases "filterLogsByActionType_ref h logs wanted")
    obtain p2 h2 where s2: "searchLogs_ref h1 p1 searchTerm = (p2, h2)"
      by (cases "searchLogs_ref h1 p1 searchTerm")
    have n1: "logs < nextRef h1"
      using filterLogsByActionType_ref_frame(2) [OF assms, of logs wanted] assms s1 by simp
    have n2: "logs < nextRef h2"
      using searchLogs_ref_frame(2) [OF n1, of p1 searchTerm] n1 s2 by simp
    have "fst (processAuditLogs_ref parseDate h logs wanted searchTerm)
        = fst (sortLogsByTimestamp_ref parseDate h2 p2)"
      by (simp add: processAuditLogs_ref_def s1 s2 split: prod.splits)
    then show ?thesis using n2 by (simp add: sortLogsByTimestamp_ref_frame(3))
  qed
  from a b c d e f show ?thesis by (simp add: readArray_def)
qed

theorem queries_leave_input_unchanged_witness:
  "readArray (snd (filterLogsByActionType_ref sampleHeap 0 ''loan_created'')) 0 = sampleLogs
   \<and> readArray (snd (searchLogs_ref sampleHeap 0 ''alice'')) 0 = sampleLogs
   \<and> readArray (snd (sortLogsByTimestamp_ref sampleParseDate sampleHeap 0)) 0 = sampleLogs
   \<and> readArray (snd (processAuditLogs_ref sampleParseDate sampleHeap 0 ''loan_created'' ''alice'')) 0
       = sampleLogs
   \<and> fst (sortLogsByTimestamp_ref sampleParseDate sampleHeap 0) \<noteq> 0
   \<and> fst (processAuditLogs_ref sampleParseDate sampleHeap 0 ''loan_created'' ''alice'') \<noteq> 0"
proof -
  have alloc: "0 < nextRef sampleHeap" by (simp add: sampleHeap_def)
  have content: "readArray sampleHeap 0 = sampleLogs" by (simp add: sampleHeap_def readArray_def)
  show ?thesis
    using queries_leave_input_unchanged [OF alloc, of "''loan_created''" "''alice''" sampleParseDate]
    by (simp add: content)
qed

subsection \<open>Loading and appending\<close>

text \<open>
  Claim C8. Loading the audit log never throws: \<open>getAuditLogs\<close> always returns a value,
  and when nothing is stored under the audit key, or the stored text is not valid JSON
  (\<open>JSON.parse\<close> throws), the value is the empty array.
\<close>

theorem getAuditLogs_never_throws:
  "(\<exists>v. getAuditLogs parse st = Inr v)
   \<and> (st STORAGE_KEY = None \<longrightarrow> getAuditLogs parse st = Inr (Entries []))
   \<and> (\<forall>stored e. st STORAGE_KEY = Some stored \<and> parse stored = Inl e
          \<longrightarrow> getAuditLogs parse st = Inr (Entries []))"
  by (auto simp: getAuditLogs_def getAuditLogs_try_def split: sum.splits option.splits)

theorem getAuditLogs_never_throws_witness:
  "getAuditLogs sampleParse (\<lambda>k. None) = Inr (Entries [])
   \<and> sampleParse ''invalid-json'' = Inl SyntaxError
   \<and> getAuditLogs sampleParse [STORAGE_KEY \<mapsto> ''invalid-json''] = Inr (Entries [])"
proof -
  have bad: "sampleParse ''invalid-json'' = Inl SyntaxError"
    by (simp add: sampleParse_def)
  have missing: "(\<lambda>k. None) STORAGE_KEY = (None :: string option)" by simp
  have present: "[STORAGE_KEY \<mapsto> ''invalid-json''] STORAGE_KEY = Some ''invalid-json''" by simp
  show ?thesis
    using getAuditLogs_never_throws [of sampleParse "\<lambda>k. None"]
      getAuditLogs_never_throws [of sampleParse "[STORAGE_KEY \<mapsto> ''invalid-json'']"]
      bad missing present
    by blast
qed

text \<open>
  Appending: where the stored text parses to an array of entries (or nothing is stored),
  and the stored form of an array parses back to it, the log after \<open>addAuditLog\<close> is the
  log before with the one entry at its end.
\<close>

theorem addAuditLog_appends_one:
  assumes "getAuditLogs parse st = Inr (Entries logs)"
    and "stringify (logs @ [entry]) \<noteq> []"
    and "parse (stringify (logs @ [entry])) = Inr (Entries (logs @ [entry]))"
  shows "\<exists>st'. addAuditLog parse stringify st entry = Inr st'
          \<and> getAuditLogs parse st' = Inr (Entries (logs @ [entry]))
          \<and> (\<forall>k. k \<noteq> STORAGE_KEY \<longrightarrow> st' k = st k)"
  using assms
  by (simp add: addAuditLog_def saveAuditLogs_def getAuditLogs_def getAuditLogs_try_def)

theorem addAuditLog_appends_one_witness:
  "addAuditLog sampleParse sampleStringify (\<lambda>k. None) (hd sampleLogs)
     = Inr [STORAGE_KEY \<mapsto> ''[1]'']
   \<and> getAuditLogs sampleParse [STORAGE_KEY \<mapsto> ''[1]''] = Inr (Entries [hd sampleLogs])"
proof -
  have before: "getAuditLogs sampleParse (\<lambda>k. None) = Inr (Entries [])"
    by (simp add: getAuditLogs_def getAuditLogs_try_def)
  have nonempty: "sampleStringify ([] @ [hd sampleLogs]) \<noteq> []"
    by (simp add: sampleStringify_def)
  have roundtrip: "sampleParse (sampleStringify ([] @ [hd sampleLogs]))
                = Inr (Entries ([] @ [hd sampleLogs]))"
    by (simp add: sampleStringify_def sampleParse_def)
  have run: "addAuditLog sampleParse sampleStringify (\<lambda>k. None) (hd sampleLogs)
               = Inr [STORAGE_KEY \<mapsto> ''[1]'']"
    by (simp add: addAuditLog_def before saveAuditLogs_def sampleStringify_def)
  show ?thesis
    using addAuditLog_appends_one
      [of sampleParse "\<lambda>k. None" "[]" sampleStringify "hd sampleLogs"]
      before nonempty roundtrip run
    by simp
qed

subsection \<open>The automatic decision\<close>

lemma find_setStatus:
  assumes "find (\<lambda>loan. id_l loan = i) loans = Some loan"
  shows "find (\<lambda>loan. id_l loan = i) (setStatus i s loans) = Some (loan\<lparr> status := s \<rparr>)"
  using assms by (induction loans) (auto split: if_splits)

text \<open>
  Claim C3. For every pending loan in the collection, \<open>autoDecide\<close> succeeds, returns
  the old status \<open>pending\<close> and sets the new status to \<open>approved\<close> exactly when
  \<open>amount <= 100000\<close> and \<open>termMonths <= 60\<close>, and to \<open>rejected\<close> otherwise. The
  boundary cases follow: 100000 over 60 months is approved, 100001 over 60 months and
  100000 over 61 months are rejected.
\<close>

theorem autoDecideLoan_rule:
  assumes "find (\<lambda>l. id_l l = i) loans = Some loan" and "status loan = pending"
  shows "\<exists>loans'. autoDecideLoan i loans
            = Inr ((pending, if amount loan \<le> 100000 \<and> termMonths loan \<le> 60
                             then approved else rejected), loans')
          \<and> find (\<lambda>l. id_l l = i) loans'
              = Some (loan\<lparr> status := (if amount loan \<le> 100000 \<and> termMonths loan \<le> 60
                                         then approved else rejected) \<rparr>)"
  using assms find_setStatus [OF assms(1)]
  by (simp add: autoDecideLoan_def Let_def)

theorem autoDecideLoan_rule_witness:
  "(\<exists>loans'. autoDecideLoan ''1'' [loanOf 100000 60] = Inr ((pending, approved), loans'))
   \<and> (\<exists>loans'. autoDecideLoan ''1'' [loanOf 100001 60] = Inr ((pending, rejected), loans'))
   \<and> (\<exists>loans'. autoDecideLoan ''1'' [loanOf 100000 61] = Inr ((pending, rejected), loans'))"
proof -
  have found: "find (\<lambda>l. id_l l = ''1'') [loanOf a n] = Some (loanOf a n)" for a n
    by (simp add: loanOf_def)
  have pend: "status (loanOf a n) = pending" for a n
    by (simp add: loanOf_def)
  have fields: "amount (loanOf a n) = a" "termMonths (loanOf a n) = n" for a n
    by (simp_all add: loanOf_def)
  have "\<exists>loans'. autoDecideLoan ''1'' [loanOf 100000 60] = Inr ((pending, approved), loans')"
    using autoDecideLoan_rule [OF found pend, of 100000 60] by (auto simp: fields)
  moreover
  have "\<exists>loans'. autoDecideLoan ''1'' [loanOf 100001 60] = Inr ((pending, rejected), loans')"
    using autoDecideLoan_rule [OF found pend, of 100001 60] by (auto simp: fields)
  moreover
  have "\<exists>loans'. autoDecideLoan ''1'' [loanOf 100000 61] = Inr ((pending, rejected), loans')"
    using autoDecideLoan_rule [OF found pend, of 100000 61] by (auto simp: fields)
  ultimately show ?thesis by blast
qed

subsection \<open>Validation on creation\<close>

text \<open>
  Claim C9. \<open>create\<close> validates the name, the amount, the term and the rate in this
  order and fails with the message of the first check that fails: an input with an empty
  (trimmed) name fails with \<open>Applicant name is required\<close> whatever its amount; the
  amount message needs a name, the term message a name and an amount, the rate message
  all three; an input that passes the four checks is created as a pending loan.
\<close>

theorem createLoanApplication_validation_order:
  "(trim (applicantName_i input) = [] \<longrightarrow>
      createLoanApplication newId now loans input
        = Inl (ValidationError ''Applicant name is required''))
   \<and> (trim (applicantName_i input) \<noteq> [] \<and> amount_i input \<le> 0 \<longrightarrow>
      createLoanApplication newId now loans input
        = Inl (ValidationError ''Amount must be greater than 0''))
   \<and> (trim (applicantName_i input) \<noteq> [] \<and> 0 < amount_i input \<and> termMonths_i input \<le> 0 \<longrightarrow>
      createLoanApplication newId now loans input
        = Inl (ValidationError ''Term months must be greater than 0''))
   \<and> (trim (applicantName_i input) \<noteq> [] \<and> 0 < amount_i input \<and> 0 < termMonths_i input
        \<and> interestRate_i input < 0 \<longrightarrow>
      createLoanApplication newId now loans input
        = Inl (ValidationError ''Interest rate is required and cannot be negative''))
   \<and> (trim (applicantName_i input) \<noteq> [] \<and> 0 < amount_i input \<and> 0 < termMonths_i input
        \<and> 0 \<le> interestRate_i input \<longrightarrow>
      (\<exists>loan. createLoanApplication newId now loans input = Inr (loan, loans @ [loan])
          \<and> id_l loan = newId \<and> status loan = pending))"
  by (simp add: createLoanApplication_def Let_def not_less not_le)

theorem createLoanApplication_validation_order_witness:
  "trim (applicantName_i sampleInput) = [] \<and> amount_i sampleInput \<le> 0
   \<and> createLoanApplication ''1'' ''2024-01-01T00:00:00.000Z'' [] sampleInput
       = Inl (ValidationError ''Applicant name is required'')
   \<and> createLoanApplication ''1'' ''2024-01-01T00:00:00.000Z'' []
         (johnDoe\<lparr> amount_i := 0 \<rparr>)
       = Inl (ValidationError ''Amount must be greater than 0'')
   \<and> createLoanApplication ''1'' ''2024-01-01T00:00:00.000Z'' []
         (johnDoe\<lparr> termMonths_i := 0 \<rparr>)
       = Inl (ValidationError ''Term months must be greater than 0'')
   \<and> createLoanApplication ''1'' ''2024-01-01T00:00:00.000Z'' []
         (johnDoe\<lparr> interestRate_i := - (5 / 100) \<rparr>)
       = Inl (ValidationError ''Interest rate is required and cannot be negative'')
   \<and> (\<exists>loan. createLoanApplication ''1'' ''2024-01-01T00:00:00.000Z'' [] johnDoe
                 = Inr (loan, [] @ [loan])
              \<and> id_l loan = ''1'' \<and> status loan = pending)"
proof -
  have blank: "trim (applicantName_i sampleInput) = []"
    by (simp add: sampleInput_def trim_def isWhiteSpace_def)
  have zero: "amount_i sampleInput \<le> 0"
    by (simp add: sampleInput_def)
  have named: "trim (applicantName_i johnDoe) \<noteq> []"
    by (simp add: johnDoe_def trim_def isWhiteSpace_def)
  have fields: "0 < amount_i johnDoe" "0 < termMonths_i johnDoe" "0 \<le> interestRate_i johnDoe"
    by (simp_all add: johnDoe_def)
  have name_first:
    "createLoanApplication ''1'' ''2024-01-01T00:00:00.000Z'' [] sampleInput
       = Inl (ValidationError ''Applicant name is required'')"
    using createLoanApplication_validation_order
            [of sampleInput "''1''" "''2024-01-01T00:00:00.000Z''" "[]"] blank
    by blast
  have amount_second:
    "createLoanApplication ''1'' ''2024-01-01T00:00:00.000Z'' [] (johnDoe\<lparr> amount_i := 0 \<rparr>)
       = Inl (ValidationError ''Amount must be greater than 0'')"
    using createLoanApplication_validation_order
            [of "johnDoe\<lparr> amount_i := 0 \<rparr>" "''1''" "''2024-01-01T00:00:00.000Z''" "[]"] named
    by simp
  have term_third:
    "createLoanApplication ''1'' ''2024-01-01T00:00:00.000Z'' [] (johnDoe\<lparr> termMonths_i := 0 \<rparr>)
       = Inl (ValidationError ''Term months must be greater than 0'')"
    using createLoanApplication_validation_order
            [of "johnDoe\<lparr> termMonths_i := 0 \<rparr>" "''1''" "''2024-01-01T00:00:00.000Z''" "[]"]
          named fields
    by simp
  have rate_fourth:
    "createLoanApplication ''1'' ''2024-01-01T00:00:00.000Z'' []
         (johnDoe\<lparr> interestRate_i := - (5 / 100) \<rparr>)
       = Inl (ValidationError ''Interest rate is required and cannot be negative'')"
    using createLoanApplication_validation_order
            [of "johnDoe\<lparr> interestRate_i := - (5 / 100) \<rparr>" "''1''"
                "''2024-01-01T00:00:00.000Z''" "[]"]
          named fields
    by simp
  have created:
    "\<exists>loan. createLoanApplication ''1'' ''2024-01-01T00:00:00.000Z'' [] johnDoe
              = Inr (loan, [] @ [loan])
           \<and> id_l loan = ''1'' \<and> status loan = pending"
    using createLoanApplication_validation_order
            [of johnDoe "''1''" "''2024-01-01T00:00:00.000Z''" "[]"] named fields
    by blast
  from blank zero name_first amount_second term_third rate_fourth created
  show ?thesis by blast
qed

subsection \<open>The status of a loan over the steps of the application\<close>

lemma setStatus_ids: "map id_l (setStatus i s loans) = map id_l loans"
  by (induction loans) simp_all

lemma setStatus_member:
  assumes "l' \<in> set (setStatus i s loans)"
  shows "l' \<in> set loans \<or> (\<exists>l \<in> set loans. id_l l = i \<and> l' = l\<lparr> status := s \<rparr>)"
  using assms by (induction loans) (auto split: if_splits)

lemma same_id_same_loan:
  assumes "distinct (map id_l loans)" and "l \<in> set loans" and "l' \<in> set loans"
    and "id_l l' = id_l l"
  shows "l' = l"
  using assms by (meson distinct_map inj_onD)

lemma consistent_refresh:
  assumes "distinct (map id_l stored)"
  shows "consistent (refreshLoans (s\<lparr> storedLoans := stored \<rparr>))"
  using assms by (simp add: consistent_def refreshLoans_def)

lemma updateLoanStatus_result:
  assumes "updateLoanStatus i st loans = Inr stored"
  shows "stored = setStatus i st loans"
  using assms by (simp add: updateLoanStatus_def split: option.splits)

lemma autoDecideLoan_result:
  assumes "autoDecideLoan i loans = Inr (decision, stored)"
  shows "stored = setStatus i approved loans \<or> stored = setStatus i rejected loans"
  using assms by (auto simp: autoDecideLoan_def Let_def split: option.splits if_splits)

lemma deleteLoan_result:
  assumes "deleteLoan i loans = Inr (removed, stored)"
  shows "stored = filter (\<lambda>l. id_l l \<noteq> i) loans"
  using assms by (simp add: deleteLoan_def split: option.splits)

lemma createLoanApplication_result:
  assumes "createLoanApplication newId now loans input = Inr (loan, stored)"
  shows "stored = loans @ [loan] \<and> id_l loan = newId \<and> status loan = pending"
  using assms by (auto simp: createLoanApplication_def Let_def split: if_splits)

lemma consistent_step:
  assumes "consistent s" and "step s a = Some s'"
  shows "consistent s'"
proof -
  have d: "distinct (map id_l (storedLoans s))"
    using assms(1) by (simp add: consistent_def)
  have off: "offered s a" and s': "s' = (case handle s a of Inl e \<Rightarrow> s | Inr t \<Rightarrow> t)"
    using assms(2) by (auto simp: step_def split: if_splits)
  show ?thesis
  proof (cases "handle s a")
    case (Inl e)
    then show ?thesis using s' assms(1) by simp
  next
    case (Inr t)
    then have t: "s' = t" using s' by simp
    show ?thesis
    proof (cases a)
      case Mounted
      then show ?thesis using Inr t d by (auto simp: consistent_def refreshLoans_def)
    next
      case PageReload
      then show ?thesis using Inr t d by (auto simp: consistent_def)
    next
      case (SubmitForm newId now input)
      then obtain loan stored where
        c: "createLoanApplication newId now (storedLoans s) input = Inr (loan, stored)"
        and t': "t = refreshLoans (s\<lparr> storedLoans := stored \<rparr>)"
        using Inr by (auto simp: submitForm_def split: sum.splits)
      have "distinct (map id_l stored)"
        using createLoanApplication_result [OF c] d off SubmitForm by auto
      then show ?thesis using t t' consistent_refresh by simp
    next
      case (ClickApprove i)
      then obtain stored where
        c: "updateLoanStatus i approved (storedLoans s) = Inr stored"
        and t': "t = refreshLoans (s\<lparr> storedLoans := stored \<rparr>)"
        using Inr by (auto simp: handleApprove_def split: sum.splits)
      have "distinct (map id_l stored)"
        using updateLoanStatus_result [OF c] d by (simp add: setStatus_ids)
      then show ?thesis using t t' consistent_refresh by simp
    next
      case (ClickReject i)
      then obtain stored where
        c: "updateLoanStatus i rejected (storedLoans s) = Inr stored"
        and t': "t = refreshLoans (s\<lparr> storedLoans := stored \<rparr>)"
        using Inr by (auto simp: handleReject_def split: sum.splits)
      have "distinct (map id_l stored)"
        using updateLoanStatus_result [OF c] d by (simp add: setStatus_ids)
      then show ?thesis using t t' consistent_refresh by simp
    next
      case (ClickAutoDecide i)
      then obtain decision stored where
        c: "autoDecideLoan i (storedLoans s) = Inr (decision, stored)"
        and t': "t = refreshLoans (s\<lparr> storedLoans := stored \<rparr>)"
        using Inr by (auto simp: handleAutoDecide_def split: sum.splits)
      have "distinct (map id_l stored)"
        using autoDecideLoan_result [OF c] d by (auto simp: setStatus_ids)
      then show ?thesis using t t' consistent_refresh by simp
    next
      case (ConfirmDelete i)
      then obtain removed stored where
        c: "deleteLoan i (storedLoans s) = Inr (removed, stored)"
        and t': "t = refreshLoans (s\<lparr> storedLoans := stored \<rparr>)"
        using Inr by (auto simp: handleDelete_def split: sum.splits)
      have "distinct (map id_l stored)"
        using deleteLoan_result [OF c] d by (simp add: distinct_map_filter)
      then show ?thesis using t t' consistent_refresh by simp
    qed
  qed
qed

lemma reachable_consistent:
  assumes "reachable s"
  shows "consistent s"
  using assms
proof (induction rule: reachable.induct)
  case reach_start
  show ?case by (simp add: consistent_def initialApp_def)
next
  case (reach_step s a s')
  then show ?case using consistent_step by blast
qed

lemma shown_pending_is_stored:
  assumes "consistent s" and "p \<in> set (shownLoans s)" and "id_l p = i" and "status p = pending"
    and "l \<in> set (storedLoans s)" and "id_l l = i"
  shows "status l = pending"
proof -
  have "shownLoans s = storedLoans s \<or> shownLoans s = []"
    using assms(1) by (simp add: consistent_def)
  then have "p \<in> set (storedLoans s)" using assms(2) by auto
  moreover have "distinct (map id_l (storedLoans s))"
    using assms(1) by (simp add: consistent_def)
  ultimately have "l = p"
    using same_id_same_loan [of "storedLoans s" p l] assms(3,5,6) by simp
  then show ?thesis using assms(4) by simp
qed

lemma setStatus_change:
  assumes "distinct (map id_l loans)" and "loan \<in> set loans"
    and "loan' \<in> set (setStatus i st loans)" and "id_l loan' = id_l loan"
  shows "loan' = loan \<or> (id_l loan = i \<and> status loan' = st)"
proof -
  from setStatus_member [OF assms(3)]
  consider "loan' \<in> set loans" | l where "l \<in> set loans" "id_l l = i" "loan' = l\<lparr> status := st \<rparr>"
    by blast
  then show ?thesis
  proof cases
    case 1
    then show ?thesis using same_id_same_loan [OF assms(1,2) 1 assms(4)] by simp
  next
    case 2
    then show ?thesis using assms(4) by simp
  qed
qed

lemma step_status:
  assumes "consistent s" and "step s a = Some s'"
    and "loan \<in> set (storedLoans s)" and "loan' \<in> set (storedLoans s')"
    and "id_l loan' = id_l loan"
  shows "status loan' = status loan
       \<or> (status loan = pending \<and> (status loan' = approved \<or> status loan' = rejected))"
proof -
  have d: "distinct (map id_l (storedLoans s))"
    using assms(1) by (simp add: consistent_def)
  have off: "offered s a" and s': "s' = (case handle s a of Inl e \<Rightarrow> s | Inr t \<Rightarrow> t)"
    using assms(2) by (auto simp: step_def split: if_splits)
  have same: "status l' = status loan" if "l' \<in> set (storedLoans s)" "id_l l' = id_l loan" for l'
    using same_id_same_loan [OF d assms(3) that] by simp
  show ?thesis
  proof (cases "handle s a")
    case (Inl e)
    then have "s' = s" using s' by simp
    then show ?thesis using same assms(4,5) by simp
  next
    case (Inr t)
    then have t: "s' = t" using s' by simp
    show ?thesis
    proof (cases a)
      case Mounted
      then have "storedLoans s' = storedLoans s" using Inr t by (auto simp: refreshLoans_def)
      then show ?thesis using same assms(4,5) by simp
    next
      case PageReload
      then have "storedLoans s' = storedLoans s" using Inr t by auto
      then show ?thesis using same assms(4,5) by simp
    next
      case (SubmitForm newId now input)
      then obtain new stored where
        c: "createLoanApplication newId now (storedLoans s) input = Inr (new, stored)"
        and t': "t = refreshLoans (s\<lparr> storedLoans := stored \<rparr>)"
        using Inr by (auto simp: submitForm_def split: sum.splits)
      have st: "storedLoans s' = storedLoans s @ [new]" and new: "id_l new = newId"
        using createLoanApplication_result [OF c] t t' by (simp_all add: refreshLoans_def)
      have "newId \<notin> set (map id_l (storedLoans s))" using off SubmitForm by simp
      then have "id_l loan \<noteq> newId" using assms(3) by auto
      then have "loan' \<in> set (storedLoans s)" using assms(4,5) st new by auto
      then show ?thesis using same assms(5) by simp
    next
      case (ClickApprove i)
      then obtain stored where
        c: "updateLoanStatus i approved (storedLoans s) = Inr stored"
        and t': "t = refreshLoans (s\<lparr> storedLoans := stored \<rparr>)"
        using Inr by (auto simp: handleApprove_def split: sum.splits)
      have "storedLoans s' = setStatus i approved (storedLoans s)"
        using updateLoanStatus_result [OF c] t t' by (simp add: refreshLoans_def)
      then have ch: "loan' = loan \<or> (id_l loan = i \<and> status loan' = approved)"
        using setStatus_change [OF d assms(3) _ assms(5), of i approved] assms(4) by simp
      obtain p where "p \<in> set (shownLoans s)" "id_l p = i" "status p = pending"
        using off ClickApprove by auto
      then have "id_l loan = i \<Longrightarrow> status loan = pending"
        using shown_pending_is_stored [OF assms(1) _ _ _ assms(3)] by blast
      then show ?thesis using ch by auto
    next
      case (ClickReject i)
      then obtain stored where
        c: "updateLoanStatus i rejected (storedLoans s) = Inr stored"
        and t': "t = refreshLoans (s\<lparr> storedLoans := stored \<rparr>)"
        using Inr by (auto simp: handleReject_def split: sum.splits)
      have "storedLoans s' = setStatus i rejected (storedLoans s)"
        using updateLoanStatus_result [OF c] t t' by (simp add: refreshLoans_def)
      then have ch: "loan' = loan \<or> (id_l loan = i \<and> status loan' = rejected)"
        using setStatus_change [OF d assms(3) _ assms(5), of i rejected] assms(4) by simp
      obtain p where "p \<in> set (shownLoans s)" "id_l p = i" "status p = pending"
        using off ClickReject by auto
      then have "id_l loan = i \<Longrightarrow> status loan = pending"
        using shown_pending_is_stored [OF assms(1) _ _ _ assms(3)] by blast
      then show ?thesis using ch by auto
    next
      case (ClickAutoDecide i)
      then obtain decision stored where
        c: "autoDecideLoan i (storedLoans s) = Inr (decision, stored)"
        and t': "t = refreshLoans (s\<lparr> storedLoans := stored \<rparr>)"
        using Inr by (auto simp: handleAutoDecide_def split: sum.splits)
      have "storedLoans s' = setStatus i approved (storedLoans s)
          \<or> storedLoans s' = setStatus i rejected (storedLoans s)"
        using autoDecideLoan_result [OF c] t t' by (simp add: refreshLoans_def)
      then have ch: "loan' = loan
          \<or> (id_l loan = i \<and> (status loan' = approved \<or> status loan' = rejected))"
        using setStatus_change [OF d assms(3) _ assms(5), of i approved]
              setStatus_change [OF d assms(3) _ assms(5), of i rejected] assms(4) by auto
      obtain p where "p \<in> set (shownLoans s)" "id_l p = i" "status p = pending"
        using off ClickAutoDecide by auto
      then have "id_l loan = i \<Longrightarrow> status loan = pending"
        using shown_pending_is_stored [OF assms(1) _ _ _ assms(3)] by blast
      then show ?thesis using ch by auto
    next
      case (ConfirmDelete i)
      then obtain removed stored where
        c: "deleteLoan i (storedLoans s) = Inr (removed, stored)"
        and t': "t = refreshLoans (s\<lparr> storedLoans := stored \<rparr>)"
        using Inr by (auto simp: handleDelete_def split: sum.splits)
      have "storedLoans s' = filter (\<lambda>l. id_l l \<noteq> i) (storedLoans s)"
        using deleteLoan_result [OF c] t t' by (simp add: refreshLoans_def)
      then have "loan' \<in> set (storedLoans s)" using assms(4) by simp
      then show ?thesis using same assms(5) by simp
    qed
  qed
qed

text \<open>
  Claim C4. In every reachable state of the application, a step changes the status of a
  persisted loan only from \<open>pending\<close> to \<open>approved\<close> or from \<open>pending\<close> to
  \<open>rejected\<close>: a loan that is \<open>approved\<close> or \<open>rejected\<close> and is still in the
  collection after the step has the status it had. The steps are the actions the list
  offers (the approve, reject and auto-decide buttons of pending rows only, delete on every
  row), the form, and mounting and reloading the page.
\<close>

theorem terminal_status_never_changes:
  assumes "reachable s" and "step s a = Some s'"
    and "loan \<in> set (storedLoans s)" and "loan' \<in> set (storedLoans s')"
    and "id_l loan' = id_l loan"
  shows "(status loan' = status loan
          \<or> (status loan = pending \<and> (status loan' = approved \<or> status loan' = rejected)))
       \<and> (status loan = approved \<longrightarrow> status loan' = approved)
       \<and> (status loan = rejected \<longrightarrow> status loan' = rejected)"
proof -
  have "consistent s" using assms(1) by (rule reachable_consistent)
  from step_status [OF this assms(2-5)] show ?thesis by auto
qed

text \<open>
  The scenario: John Doe's loan is created and approved; after that the list offers
  neither reject nor auto-decide for it.
\<close>

lemma oneLoanApp_reachable: "reachable oneLoanApp"
proof -
  have "step initialApp (SubmitForm ''1'' ''2024-01-01T00:00:00.000Z'' johnDoe) = Some oneLoanApp"
    by (simp add: step_def initialApp_def submitForm_def createLoanApplication_def johnDoe_def
        johnDoeLoan_def oneLoanApp_def refreshLoans_def trim_def isWhiteSpace_def Let_def)
  then show ?thesis using reachable.reach_start reachable.reach_step by blast
qed

lemma approve_john:
  "step oneLoanApp (ClickApprove ''1'') = Some (decidedApp approved)"
  by (simp add: step_def oneLoanApp_def decidedApp_def johnDoeLoan_def handleApprove_def
      updateLoanStatus_def refreshLoans_def)

lemma reject_john:
  "step oneLoanApp (ClickReject ''1'') = Some (decidedApp rejected)"
  by (simp add: step_def oneLoanApp_def decidedApp_def johnDoeLoan_def handleReject_def
      updateLoanStatus_def refreshLoans_def)

lemma decidedApp_reachable: "reachable (decidedApp approved)" "reachable (decidedApp rejected)"
  using oneLoanApp_reachable approve_john reject_john reachable.reach_step by blast+

lemma decidedApp_mounted: "step (decidedApp st) Mounted = Some (decidedApp st)"
  by (simp add: step_def decidedApp_def refreshLoans_def)

lemma decidedApp_closed:
  "step (decidedApp approved) (ClickReject ''1'') = None"
  "step (decidedApp approved) (ClickAutoDecide ''1'') = None"
  "step (decidedApp rejected) (ClickApprove ''1'') = None"
  "step (decidedApp rejected) (ClickAutoDecide ''1'') = None"
  by (simp_all add: step_def decidedApp_def johnDoeLoan_def)

theorem terminal_status_never_changes_witness:
  "reachable oneLoanApp
   \<and> step oneLoanApp (ClickApprove ''1'') = Some (decidedApp approved)
   \<and> status johnDoeLoan = pending
   \<and> storedLoans (decidedApp approved) = [johnDoeLoan\<lparr> status := approved \<rparr>]
   \<and> step (decidedApp approved) (ClickReject ''1'') = None
   \<and> step (decidedApp approved) (ClickAutoDecide ''1'') = None
   \<and> step (decidedApp approved) Mounted = Some (decidedApp approved)
   \<and> step (decidedApp rejected) (ClickApprove ''1'') = None
   \<and> step (decidedApp rejected) (ClickAutoDecide ''1'') = None
   \<and> step (decidedApp rejected) Mounted = Some (decidedApp rejected)"
proof -
  have m: "johnDoeLoan \<in> set (storedLoans oneLoanApp)"
    by (simp add: oneLoanApp_def)
  have m': "johnDoeLoan\<lparr> status := st \<rparr> \<in> set (storedLoans (decidedApp st))" for st
    by (simp add: decidedApp_def)
  have same: "id_l (johnDoeLoan\<lparr> status := st \<rparr>) = id_l johnDoeLoan" for st
    by simp
  have pend: "status johnDoeLoan = pending" by (simp add: johnDoeLoan_def)
  have stored: "storedLoans (decidedApp approved) = [johnDoeLoan\<lparr> status := approved \<rparr>]"
    by (simp add: decidedApp_def)
  note transition =
    terminal_status_never_changes [OF oneLoanApp_reachable approve_john m m' same]
  note approved_stays =
    terminal_status_never_changes
      [OF decidedApp_reachable(1) decidedApp_mounted m' m']
  note rejected_stays =
    terminal_status_never_changes
      [OF decidedApp_reachable(2) decidedApp_mounted m' m']
  show ?thesis
    using transition approved_stays rejected_stays
      oneLoanApp_reachable approve_john decidedApp_closed decidedApp_mounted pend stored
    by simp
qed

end
